theory Spec2Isabelle
  imports Main "HOL-Library.Word" "HOL-Library.List_Lexorder"
begin

section \<open>Values, objects and strings of the dashboard\<close>

text \<open>
  The dashboard (\<^verbatim>\<open>team_task_dashboard_react_single_file.jsx\<close>) keeps its tasks as plain
  JavaScript objects whose properties hold strings, or \<^verbatim>\<open>undefined\<close>. A string is a
  sequence of 16-bit code units, compared code unit by code unit; \<open>js\<close> gives the
  string of a literal of the source. An object is a finite map from property names to
  values: the spread \<^verbatim>\<open>{...a, ...b}\<close> is \<open>a ++ b\<close>, and a property that is present
  with the value \<^verbatim>\<open>undefined\<close> is different from an absent one (the spread copies
  it).
\<close>

type_synonym code_unit = "16 word"

type_synonym jsstring = "code_unit list"

definition js :: "string \<Rightarrow> jsstring" where
  "js s = map (\<lambda>c. of_nat (of_char c)) s"

datatype jsval = JUndefined | JStr jsstring

type_synonym obj = "jsstring \<rightharpoonup> jsval"

definition get :: "obj \<Rightarrow> jsstring \<Rightarrow> jsval" where
  \<comment> \<open>\<^verbatim>\<open>o[k]\<close> for an own property name: \<^verbatim>\<open>undefined\<close> when absent\<close>
  "get ob k = (case ob k of None \<Rightarrow> JUndefined | Some v \<Rightarrow> v)"

fun truthy :: "jsval \<Rightarrow> bool" where
  "truthy JUndefined = False"
| "truthy (JStr s) = (s \<noteq> [])"

definition or_str :: "jsval \<Rightarrow> jsstring \<Rightarrow> jsstring" where
  \<comment> \<open>\<^verbatim>\<open>v || "d"\<close> for a string or undefined \<^verbatim>\<open>v\<close>\<close>
  "or_str v d = (case v of JUndefined \<Rightarrow> d | JStr s \<Rightarrow> if s = [] then d else s)"

abbreviation DQ :: code_unit where "DQ \<equiv> 0x22"
abbreviation BSL :: code_unit where "BSL \<equiv> 0x5C"
abbreviation LF :: code_unit where "LF \<equiv> 0x0A"
abbreviation CR :: code_unit where "CR \<equiv> 0x0D"
abbreviation COMMA :: code_unit where "COMMA \<equiv> 0x2C"

definition js_whitespace :: "code_unit \<Rightarrow> bool" where
  \<comment> \<open>the WhiteSpace and LineTerminator code units, which \<^verbatim>\<open>String.prototype.trim\<close> strips\<close>
  "js_whitespace c =
     (c \<in> set [0x09, 0x0A, 0x0B, 0x0C, 0x0D, 0x20, 0xA0, 0x1680,
                0x2000, 0x2001, 0x2002, 0x2003, 0x2004, 0x2005, 0x2006, 0x2007, 0x2008, 0x2009, 0x200A,
                0x2028, 0x2029, 0x202F, 0x205F, 0x3000, 0xFEFF])"

definition trim :: "jsstring \<Rightarrow> jsstring" where
  "trim s = rev (dropWhile js_whitespace (rev (dropWhile js_whitespace s)))"

section \<open>The component state and the task form\<close>

record dashboard =
  tasks :: "obj list"
  showForm :: bool
  editing :: "obj option"

text \<open>
  What an event handler lets the user see: it runs to its end, it shows
  \<^verbatim>\<open>alert(msg)\<close>, or it is left by an uncaught exception.
\<close>

datatype outcome = Completed | Alert jsstring | Thrown

text \<open>
  \<^verbatim>\<open>uid()\<close> draws from \<^verbatim>\<open>Math.random\<close> and \<^verbatim>\<open>now()\<close> reads the clock: the
  string returned by \<^verbatim>\<open>uid()\<close> is the parameter \<open>u\<close>, and \<open>clock k\<close> is what the
  \<open>k\<close>-th call of \<^verbatim>\<open>now()\<close> within the handler returns.
\<close>

fun merge_matching :: "(nat \<Rightarrow> jsstring) \<Rightarrow> nat \<Rightarrow> obj \<Rightarrow> obj list \<Rightarrow> obj list" where
  \<comment> \<open>\<^verbatim>\<open>s.map((x) => (x.id === payload.id ? { ...x, ...payload, updatedAt: now() } : x))\<close>\<close>
  "merge_matching clock k payload [] = []"
| "merge_matching clock k payload (x # xs) =
     (if get x (js ''id'') = get payload (js ''id'')
      then ((x ++ payload)(js ''updatedAt'' \<mapsto> JStr (clock k))) # merge_matching clock (Suc k) payload xs
      else x # merge_matching clock k payload xs)"

definition upsertTask :: "jsstring \<Rightarrow> (nat \<Rightarrow> jsstring) \<Rightarrow> obj \<Rightarrow> dashboard \<Rightarrow> outcome \<times> dashboard" where
  "upsertTask u clock payload s =
     (if \<not> truthy (get payload (js ''title'')) then (Completed, s)
      else if \<not> truthy (get payload (js ''id''))
      then (Completed,
            s\<lparr>tasks := ([js ''id'' \<mapsto> JStr u, js ''createdAt'' \<mapsto> JStr (clock 0),
                          js ''updatedAt'' \<mapsto> JStr (clock 1)] ++ payload) # tasks s,
              showForm := False, editing := None\<rparr>)
      else (Completed,
            s\<lparr>tasks := merge_matching clock 0 payload (tasks s),
              showForm := False, editing := None\<rparr>))"

text \<open>The state of \<^verbatim>\<open>TaskForm\<close>: its \<^verbatim>\<open>initial\<close> prop and its six input fields.\<close>

record form =
  initial :: "obj option"
  title :: jsstring
  description :: jsstring
  assignee :: jsstring
  priority :: jsstring
  status :: jsstring
  dueDate :: jsstring

definition TaskForm :: "obj option \<Rightarrow> form" where
  \<comment> \<open>the \<^verbatim>\<open>useState\<close> initialisers of the form\<close>
  "TaskForm ini =
     \<lparr>initial = ini,
      title = (case ini of None \<Rightarrow> [] | Some t \<Rightarrow> or_str (get t (js ''title'')) []),
      description = (case ini of None \<Rightarrow> [] | Some t \<Rightarrow> or_str (get t (js ''description'')) []),
      assignee = (case ini of None \<Rightarrow> [] | Some t \<Rightarrow> or_str (get t (js ''assignee'')) []),
      priority = (case ini of None \<Rightarrow> js ''Medium'' | Some t \<Rightarrow> or_str (get t (js ''priority'')) (js ''Medium'')),
      status = (case ini of None \<Rightarrow> js ''Todo'' | Some t \<Rightarrow> or_str (get t (js ''status'')) (js ''Todo'')),
      dueDate = (case ini of None \<Rightarrow> [] | Some t \<Rightarrow> or_str (get t (js ''dueDate'')) [])\<rparr>"

definition save_payload :: "form \<Rightarrow> obj" where
  \<comment> \<open>the object literal handed to \<^verbatim>\<open>onSave\<close>; \<^verbatim>\<open>initial?.id\<close> is \<^verbatim>\<open>undefined\<close> for a new task\<close>
  "save_payload f =
     [js ''id'' \<mapsto> (case initial f of None \<Rightarrow> JUndefined | Some t \<Rightarrow> get t (js ''id'')),
      js ''title'' \<mapsto> JStr (trim (title f)),
      js ''description'' \<mapsto> JStr (trim (description f)),
      js ''assignee'' \<mapsto> JStr (assignee f),
      js ''priority'' \<mapsto> JStr (priority f),
      js ''status'' \<mapsto> JStr (status f),
      js ''dueDate'' \<mapsto> JStr (dueDate f)]"

definition save :: "jsstring \<Rightarrow> (nat \<Rightarrow> jsstring) \<Rightarrow> form \<Rightarrow> dashboard \<Rightarrow> outcome \<times> dashboard" where
  \<comment> \<open>\<^verbatim>\<open>TaskForm.save\<close> with \<^verbatim>\<open>onSave = upsertTask\<close>\<close>
  "save u clock f s =
     (if trim (title f) = [] then (Alert (js ''Title is required''), s)
      else upsertTask u clock (save_payload f) s)"

definition sampleTasks :: "jsstring \<Rightarrow> jsstring \<Rightarrow> (nat \<Rightarrow> jsstring) \<Rightarrow> obj list" where
  \<comment> \<open>the seed list of \<^verbatim>\<open>sampleTasks()\<close>, with the two \<^verbatim>\<open>uid()\<close> results and the clock\<close>
  "sampleTasks u1 u2 clock =
     [[js ''id'' \<mapsto> JStr u1, js ''title'' \<mapsto> JStr (js ''Track fuel consumption (Daff trucks)''),
       js ''description'' \<mapsto> JStr (js ''Gather monthly consumption per route''),
       js ''assignee'' \<mapsto> JStr (js ''Rami''), js ''priority'' \<mapsto> JStr (js ''High''),
       js ''status'' \<mapsto> JStr (js ''In Progress''), js ''dueDate'' \<mapsto> JStr [],
       js ''createdAt'' \<mapsto> JStr (clock 0), js ''updatedAt'' \<mapsto> JStr (clock 1)],
      [js ''id'' \<mapsto> JStr u2, js ''title'' \<mapsto> JStr (js ''SAP progress update''),
       js ''description'' \<mapsto> JStr (js ''Prepare slides for Manco''),
       js ''assignee'' \<mapsto> JStr (js ''Alice''), js ''priority'' \<mapsto> JStr (js ''Medium''),
       js ''status'' \<mapsto> JStr (js ''Todo''), js ''dueDate'' \<mapsto> JStr [],
       js ''createdAt'' \<mapsto> JStr (clock 2), js ''updatedAt'' \<mapsto> JStr (clock 3)]]"

section \<open>The derived list\<close>

text \<open>
  \<^verbatim>\<open>String.prototype.toLowerCase\<close> works from the case tables of Unicode, which
  belong to the engine: it is the parameter \<open>lower\<close> of the search.
\<close>

fun starts_with :: "jsstring \<Rightarrow> jsstring \<Rightarrow> bool" where
  "starts_with s [] = True"
| "starts_with [] (q # qs) = False"
| "starts_with (c # cs) (q # qs) = (c = q \<and> starts_with cs qs)"

fun includes_str :: "jsstring \<Rightarrow> jsstring \<Rightarrow> bool" where
  \<comment> \<open>\<^verbatim>\<open>s.includes(q)\<close>\<close>
  "includes_str [] q = (q = [])"
| "includes_str (c # cs) q = (starts_with (c # cs) q \<or> includes_str cs q)"

definition search_hit :: "(jsstring \<Rightarrow> jsstring) \<Rightarrow> jsstring \<Rightarrow> obj \<Rightarrow> bool option" where
  \<comment> \<open>the search predicate; \<^verbatim>\<open>t.title.toLowerCase()\<close> raises a TypeError (\<open>None\<close>) when the title is undefined\<close>
  "search_hit lower q t =
     (case get t (js ''title'') of
        JUndefined \<Rightarrow> None
      | JStr ti \<Rightarrow>
          Some (includes_str (lower ti) q
                \<or> includes_str (lower (or_str (get t (js ''description'')) [])) q
                \<or> includes_str (lower (or_str (get t (js ''assignee'')) [])) q))"

fun filter_search :: "(jsstring \<Rightarrow> jsstring) \<Rightarrow> jsstring \<Rightarrow> obj list \<Rightarrow> obj list option" where
  "filter_search lower q [] = Some []"
| "filter_search lower q (t # ts) =
     (case search_hit lower q t of
        None \<Rightarrow> None
      | Some b \<Rightarrow>
          (case filter_search lower q ts of
             None \<Rightarrow> None
           | Some r \<Rightarrow> Some (if b then t # r else r)))"

text \<open>
  \<^verbatim>\<open>Array.prototype.sort\<close> belongs to the engine, not to the repository. ECMAScript
  fixes its result (a stable sort) for a consistent comparison function only, and
  leaves the order to the implementation otherwise. The model is the insertion
  procedure that V8 runs on arrays of fewer than 64 elements, for a comparator that
  orders by a key: the elements are taken left to right, and each one (the pivot) is
  put into the sorted prefix in front of the first element \<open>y\<close> with
  \<^verbatim>\<open>comparefn(pivot, y) < 0\<close>. The pivot is the later element of the array, so a
  comparator that answers \<open>- 1\<close> for equal keys moves it in front of its equals.
  For a comparator that does not order by a key (the priority comparator, where it
  answers NaN) V8, which works from an initial run of the array and a binary search,
  can leave an element elsewhere; nothing below is about such a list.
\<close>

fun insert_js :: "('a \<Rightarrow> 'a \<Rightarrow> int) \<Rightarrow> 'a \<Rightarrow> 'a list \<Rightarrow> 'a list" where
  "insert_js comparefn pivot [] = [pivot]"
| "insert_js comparefn pivot (y # ys) =
     (if comparefn pivot y < 0 then pivot # y # ys else y # insert_js comparefn pivot ys)"

definition sort_js :: "('a \<Rightarrow> 'a \<Rightarrow> int) \<Rightarrow> 'a list \<Rightarrow> 'a list" where
  "sort_js comparefn xs = fold (insert_js comparefn) xs []"

definition cmp_dueDate :: "obj \<Rightarrow> obj \<Rightarrow> int" where
  \<comment> \<open>\<^verbatim>\<open>(a, b) => (a.dueDate || "9999") > (b.dueDate || "9999") ? 1 : -1\<close>\<close>
  "cmp_dueDate a b =
     (if or_str (get a (js ''dueDate'')) (js ''9999'') > or_str (get b (js ''dueDate'')) (js ''9999'')
      then 1 else - 1)"

definition Object_prototype_names :: "jsstring list" where
  \<comment> \<open>the property names every object literal inherits\<close>
  "Object_prototype_names =
     map js [''constructor'', ''__defineGetter__'', ''__defineSetter__'', ''hasOwnProperty'',
      ''__lookupGetter__'', ''__lookupSetter__'', ''isPrototypeOf'', ''propertyIsEnumerable'',
      ''toString'', ''valueOf'', ''__proto__'', ''toLocaleString'']"

definition order_rank :: "jsval \<Rightarrow> int option" where
  \<comment> \<open>\<^verbatim>\<open>order[p] || 0\<close> with \<^verbatim>\<open>order = { Low: 0, Medium: 1, High: 2, Critical: 3 }\<close>;
      \<open>None\<close> when the lookup finds an inherited function or object, which is not a number\<close>
  "order_rank v =
     (case v of
        JUndefined \<Rightarrow> Some 0
      | JStr p \<Rightarrow>
          if p = js ''Low'' then Some 0
          else if p = js ''Medium'' then Some 1
          else if p = js ''High'' then Some 2
          else if p = js ''Critical'' then Some 3
          else if p \<in> set Object_prototype_names then None
          else Some 0)"

definition cmp_priority :: "obj \<Rightarrow> obj \<Rightarrow> int" where
  \<comment> \<open>\<^verbatim>\<open>(a, b) => (order[a.priority] || 0) - (order[b.priority] || 0)\<close>; a NaN result counts as 0 in the sort\<close>
  "cmp_priority a b =
     (case (order_rank (get a (js ''priority'')), order_rank (get b (js ''priority''))) of
        (Some x, Some y) \<Rightarrow> x - y
      | _ \<Rightarrow> 0)"

definition cmp_updatedAt :: "obj \<Rightarrow> obj \<Rightarrow> int" where
  \<comment> \<open>\<^verbatim>\<open>(a, b) => (a.updatedAt || "") > (b.updatedAt || "") ? -1 : 1\<close>\<close>
  "cmp_updatedAt a b =
     (if or_str (get a (js ''updatedAt'')) [] > or_str (get b (js ''updatedAt'')) [] then - 1 else 1)"

definition visibleTasks ::
  "(jsstring \<Rightarrow> jsstring) \<Rightarrow> jsstring \<Rightarrow> jsstring \<Rightarrow> jsstring \<Rightarrow> jsstring \<Rightarrow> obj list \<Rightarrow> obj list option" where
  \<comment> \<open>the \<^verbatim>\<open>useMemo\<close> body, on a copy of \<^verbatim>\<open>tasks\<close>; \<open>None\<close> is the TypeError of the search\<close>
  "visibleTasks lower query filterStatus filterPriority sortBy ts =
     (case (if trim query \<noteq> [] then filter_search lower (lower query) ts else Some ts) of
        None \<Rightarrow> None
      | Some r1 \<Rightarrow>
          (let r2 = (if filterStatus \<noteq> js ''All''
                     then filter (\<lambda>t. get t (js ''status'') = JStr filterStatus) r1 else r1);
               r3 = (if filterPriority \<noteq> js ''All''
                     then filter (\<lambda>t. get t (js ''priority'') = JStr filterPriority) r2 else r2)
           in Some (if sortBy = js ''dueDate'' then sort_js cmp_dueDate r3
                    else if sortBy = js ''priority'' then sort_js cmp_priority r3
                    else if sortBy = js ''updatedAt'' then sort_js cmp_updatedAt r3
                    else r3)))"

section \<open>CSV export and import\<close>

fun join :: "jsstring \<Rightarrow> jsstring list \<Rightarrow> jsstring" where
  \<comment> \<open>\<^verbatim>\<open>xs.join(sep)\<close>\<close>
  "join sep [] = []"
| "join sep [x] = x"
| "join sep (x # y # ys) = x @ sep @ join sep (y # ys)"

definition hex_digit :: "nat \<Rightarrow> code_unit" where
  "hex_digit n = js ''0123456789abcdef'' ! (n mod 16)"

definition UnicodeEscape :: "code_unit \<Rightarrow> jsstring" where
  \<comment> \<open>\<^verbatim>\<open>\u\<close> and the four lower-case hexadecimal digits of the code unit\<close>
  "UnicodeEscape c =
     [BSL, 0x75, hex_digit (unat c div 4096), hex_digit (unat c div 256), hex_digit (unat c div 16),
      hex_digit (unat c)]"

definition surrogate :: "code_unit \<Rightarrow> bool" where
  "surrogate c = (0xD800 \<le> c \<and> c \<le> 0xDFFF)"

definition escape_unit :: "code_unit \<Rightarrow> jsstring" where
  \<comment> \<open>QuoteJSONString on a code unit that is not part of a surrogate pair\<close>
  "escape_unit c =
     (if c = 0x08 then [BSL, 0x62]
      else if c = 0x09 then [BSL, 0x74]
      else if c = LF then [BSL, 0x6E]
      else if c = 0x0C then [BSL, 0x66]
      else if c = CR then [BSL, 0x72]
      else if c = DQ then [BSL, DQ]
      else if c = BSL then [BSL, BSL]
      else if c < 0x20 \<or> surrogate c then UnicodeEscape c
      else [c])"

fun quote_units :: "jsstring \<Rightarrow> jsstring" where
  \<comment> \<open>QuoteJSONString without the two quotes: a leading surrogate followed by a trailing
      one is a code point and is copied, a lone surrogate is escaped\<close>
  "quote_units [] = []"
| "quote_units [c] = escape_unit c"
| "quote_units (c # d # cs) =
     (if 0xD800 \<le> c \<and> c \<le> 0xDBFF \<and> 0xDC00 \<le> d \<and> d \<le> 0xDFFF
      then c # d # quote_units cs
      else escape_unit c @ quote_units (d # cs))"

definition JSON_stringify :: "jsstring \<Rightarrow> jsstring" where
  \<comment> \<open>\<^verbatim>\<open>JSON.stringify\<close> of a string\<close>
  "JSON_stringify s = DQ # quote_units s @ [DQ]"

definition header :: "jsstring list" where
  "header = map js [''id'', ''title'', ''description'', ''assignee'', ''priority'', ''status'',
             ''dueDate'', ''createdAt'', ''updatedAt'']"

definition export_row :: "obj \<Rightarrow> jsstring" where
  \<comment> \<open>\<^verbatim>\<open>header.map((h) => JSON.stringify(t[h] || "")).join(",")\<close>\<close>
  "export_row t = join [COMMA] (map (\<lambda>h. JSON_stringify (or_str (get t h) [])) header)"

definition exportCSV :: "obj list \<Rightarrow> jsstring" where
  \<comment> \<open>the text of the downloaded file\<close>
  "exportCSV ts = join [LF] (join [COMMA] header # map export_row ts)"

fun split_lines :: "jsstring \<Rightarrow> jsstring list" where
  \<comment> \<open>\<^verbatim>\<open>text.split(/\r?\n/)\<close>\<close>
  "split_lines [] = [[]]"
| "split_lines [c] = (if c = LF then [[], []] else [[c]])"
| "split_lines (c # d # cs) =
     (if c = LF then [] # split_lines (d # cs)
      else if c = CR \<and> d = LF then [] # split_lines cs
      else (case split_lines (d # cs) of [] \<Rightarrow> [[c]] | l # ls \<Rightarrow> (c # l) # ls))"

fun split_comma :: "jsstring \<Rightarrow> jsstring list" where
  \<comment> \<open>\<^verbatim>\<open>line.split(",")\<close>\<close>
  "split_comma [] = [[]]"
| "split_comma (c # cs) =
     (if c = COMMA then [] # split_comma cs
      else (case split_comma cs of [] \<Rightarrow> [[c]] | l # ls \<Rightarrow> (c # l) # ls))"

fun scan :: "jsstring \<Rightarrow> jsstring \<Rightarrow> bool \<Rightarrow> jsstring list \<Rightarrow> jsstring list" where
  \<comment> \<open>the loop of \<^verbatim>\<open>splitCSVLine\<close> over the rest of the line, with \<^verbatim>\<open>cur\<close>, \<^verbatim>\<open>inQ\<close>, \<^verbatim>\<open>parts\<close>\<close>
  "scan [] cur inQ parts = parts @ [cur]"
| "scan (ch # rest) cur inQ parts =
     (if ch = DQ then scan rest cur (\<not> inQ) parts
      else if ch = COMMA \<and> \<not> inQ then scan rest [] inQ (parts @ [cur])
      else scan rest (cur @ [ch]) inQ parts)"

definition splitCSVLine :: "jsstring \<Rightarrow> jsstring list" where
  "splitCSVLine line = map (\<lambda>p. if p = [] then [DQ, DQ] else [DQ] @ p @ [DQ]) (scan line [] False [])"

definition hex_value :: "code_unit \<Rightarrow> nat option" where
  "hex_value c =
     (let n = unat c
      in if 48 \<le> n \<and> n \<le> 57 then Some (n - 48)
         else if 97 \<le> n \<and> n \<le> 102 then Some (n - 87)
         else if 65 \<le> n \<and> n \<le> 70 then Some (n - 55)
         else None)"

definition unescape :: "code_unit \<Rightarrow> code_unit option" where
  \<comment> \<open>the one-letter escapes of a JSON string: \<^verbatim>\<open>" \ / b f n r t\<close>\<close>
  "unescape e =
     (if e = DQ then Some DQ
      else if e = BSL then Some BSL
      else if e = 0x2F then Some 0x2F
      else if e = 0x62 then Some 0x08
      else if e = 0x66 then Some 0x0C
      else if e = 0x6E then Some LF
      else if e = 0x72 then Some CR
      else if e = 0x74 then Some 0x09
      else None)"

definition push_unit :: "code_unit \<Rightarrow> (jsstring \<times> jsstring) option \<Rightarrow> (jsstring \<times> jsstring) option" where
  "push_unit c r = (case r of None \<Rightarrow> None | Some (s, rest) \<Rightarrow> Some (c # s, rest))"

fun parse_chars :: "jsstring \<Rightarrow> (jsstring \<times> jsstring) option" where
  \<comment> \<open>the characters of a JSON string after its opening quote: the decoded string and the
      text after the closing quote, or \<open>None\<close> for a SyntaxError\<close>
  "parse_chars [] = None"
| "parse_chars (c # cs) =
     (if c = DQ then Some ([], cs)
      else if c = BSL then
        (case cs of
           [] \<Rightarrow> None
         | e # r \<Rightarrow>
             if e = 0x75 then
               (case r of
                  h1 # h2 # h3 # h4 # r' \<Rightarrow>
                    (case (hex_value h1, hex_value h2, hex_value h3, hex_value h4) of
                       (Some a, Some b, Some c', Some d) \<Rightarrow>
                         push_unit (of_nat (4096 * a + 256 * b + 16 * c' + d)) (parse_chars r')
                     | _ \<Rightarrow> None)
                | _ \<Rightarrow> None)
             else (case unescape e of
                     None \<Rightarrow> None
                   | Some ch \<Rightarrow> push_unit ch (parse_chars r)))
      else if c < 0x20 then None
      else push_unit c (parse_chars cs))"

definition json_ws :: "code_unit \<Rightarrow> bool" where
  "json_ws c = (c \<in> set [0x20, 0x09, LF, CR])"

definition JSON_parse :: "jsstring \<Rightarrow> jsstring option" where
  \<comment> \<open>\<^verbatim>\<open>JSON.parse\<close> of a text that holds a string; \<open>None\<close> is the SyntaxError. The texts
      \<^verbatim>\<open>importCSV\<close> passes all begin with a quote, so no other JSON value is read.\<close>
  "JSON_parse text =
     (case dropWhile json_ws text of
        [] \<Rightarrow> None
      | c # cs \<Rightarrow>
          if c = DQ then
            (case parse_chars cs of
               None \<Rightarrow> None
             | Some (s, rest) \<Rightarrow> if list_all json_ws rest then Some s else None)
          else None)"

definition set_prop :: "obj \<Rightarrow> jsstring \<Rightarrow> jsval \<Rightarrow> obj" where
  \<comment> \<open>\<^verbatim>\<open>obj[h] = v\<close> on an object literal, for a string \<^verbatim>\<open>v\<close>: the inherited setter of
      \<^verbatim>\<open>__proto__\<close> ignores a string and no property is made\<close>
  "set_prop ob h v = (if h = js ''__proto__'' then ob else ob(h \<mapsto> v))"

fun assign_fields :: "jsstring list \<Rightarrow> nat \<Rightarrow> jsstring list \<Rightarrow> obj \<Rightarrow> obj option" where
  \<comment> \<open>\<^verbatim>\<open>header.forEach((h, i) => (obj[h] = JSON.parse(parts[i] || '""')))\<close> from index \<open>i\<close> on\<close>
  "assign_fields [] i parts ob = Some ob"
| "assign_fields (h # hs) i parts ob =
     (case JSON_parse (if i < length parts \<and> parts ! i \<noteq> [] then parts ! i else [DQ, DQ]) of
        None \<Rightarrow> None
      | Some v \<Rightarrow> assign_fields hs (Suc i) parts (set_prop ob h (JStr v)))"

definition row_obj :: "jsstring list \<Rightarrow> jsstring \<Rightarrow> obj option" where
  \<comment> \<open>the callback mapped over the data lines; \<open>None\<close> when \<^verbatim>\<open>JSON.parse\<close> throws\<close>
  "row_obj hdr ln = assign_fields hdr 0 (splitCSVLine ln) Map.empty"

definition importCSV :: "jsstring \<Rightarrow> dashboard \<Rightarrow> outcome \<times> dashboard" where
  \<comment> \<open>\<^verbatim>\<open>reader.onload\<close> on the text of the file\<close>
  "importCSV text s =
     (case filter (\<lambda>l. l \<noteq> []) (split_lines text) of
        [] \<Rightarrow> (Alert (js ''No data found''), s)
      | [l] \<Rightarrow> (Alert (js ''No data found''), s)
      | l # ln # lns \<Rightarrow>
          (case those (map (row_obj (map (filter (\<lambda>c. c \<noteq> DQ)) (split_comma l))) (ln # lns)) of
             None \<Rightarrow> (Thrown, s)
           | Some imported \<Rightarrow> (Completed, s\<lparr>tasks := imported @ tasks s\<rparr>)))"

section \<open>Literals\<close>

lemma unat_of_char: "unat (of_nat (of_char c) :: code_unit) = of_char c"
proof -
  have "(of_char c :: nat) mod 256 < 256" by (rule mod_less_divisor) simp
  then have "(of_char c :: nat) < 256" by simp
  then have "(of_char c :: nat) < 65536" by linarith
  then show ?thesis by (simp add: unat_of_nat take_bit_nat_eq_self)
qed

lemma js_eq_iff: "js a = js b \<longleftrightarrow> a = b"
proof -
  have "inj (\<lambda>c. of_nat (of_char c) :: code_unit)"
  proof (rule injI)
    fix c d :: char
    assume "(of_nat (of_char c) :: code_unit) = of_nat (of_char d)"
    then have "unat (of_nat (of_char c) :: code_unit) = unat (of_nat (of_char d) :: code_unit)" by simp
    then have "(of_char c :: nat) = of_char d" by (simp only: unat_of_char)
    then show "c = d" by simp
  qed
  then show ?thesis unfolding js_def by (simp add: inj_map_eq_map)
qed

lemma js_Nil_iff: "js a = [] \<longleftrightarrow> a = []"
  by (simp add: js_def)

section \<open>Saving a task: validation, creation and update\<close>

lemma trim_blank: "list_all js_whitespace t \<Longrightarrow> trim t = []"
  by (auto simp: trim_def list_all_iff dest: set_dropWhileD)

text \<open>
  C1. A save, of a new task or of an edited one, whose title is empty or made of
  whitespace only shows the alert \<^verbatim>\<open>Title is required\<close> (the ValidationError of the
  specification) and leaves the component state, the task list included, as it was:
  \<^verbatim>\<open>TaskForm.save\<close> returns before \<^verbatim>\<open>upsertTask\<close> is called.
\<close>

theorem save_blank_title:
  "list_all js_whitespace (title f) \<Longrightarrow> save u clock f s = (Alert (js ''Title is required''), s)"
  by (simp add: save_def trim_blank)

theorem save_blank_title_witness:
  "list_all js_whitespace (title ((TaskForm None)\<lparr>title := js ''  ''\<rparr>)) \<and>
   save (js ''k3j9x0a'') (\<lambda>k. js ''2025-11-11T08:00:00.000Z'') ((TaskForm None)\<lparr>title := js ''  ''\<rparr>)
        \<lparr>tasks = [], showForm = True, editing = None\<rparr>
     = (Alert (js ''Title is required''), \<lparr>tasks = [], showForm = True, editing = None\<rparr>)"
  using save_blank_title [of "(TaskForm None)\<lparr>title := js ''  ''\<rparr>" "js ''k3j9x0a''" "\<lambda>k. js ''2025-11-11T08:00:00.000Z''" "\<lparr>tasks = [], showForm = True, editing = None\<rparr>"]
  by (simp add: js_whitespace_def js_def)

lemma merge_matching_absent:
  "\<forall>x \<in> set xs. get x (js ''id'') \<noteq> get payload (js ''id'') \<Longrightarrow> merge_matching clock k payload xs = xs"
  by (induction xs arbitrary: k) auto

lemma merge_matching_length: "length (merge_matching clock k payload xs) = length xs"
  by (induction xs arbitrary: k) auto

lemma merge_matching_frame:
  "i < length xs \<Longrightarrow> truthy (get payload (js ''id'')) \<Longrightarrow>
   (merge_matching clock k payload xs ! i) (js ''id'') = (xs ! i) (js ''id'') \<and>
   (\<forall>key. key \<notin> dom payload \<and> key \<noteq> js ''updatedAt'' \<longrightarrow> (merge_matching clock k payload xs ! i) key = (xs ! i) key)"
proof (induction xs arbitrary: k i)
  case Nil
  then show ?case by simp
next
  case (Cons x xs)
  show ?case
  proof (cases i)
    case 0
    show ?thesis
    proof (cases "get x (js ''id'') = get payload (js ''id'')")
      case True
      with Cons.prems obtain v where "get payload (js ''id'') = JStr v" "get x (js ''id'') = JStr v"
        by (cases "get payload (js ''id'')") auto
      then have "payload (js ''id'') = Some (JStr v)" "x (js ''id'') = Some (JStr v)"
        by (auto simp: get_def split: option.splits)
      with True 0 show ?thesis by (auto simp: map_add_def dom_def js_eq_iff split: option.splits)
    next
      case False
      with 0 show ?thesis by simp
    qed
  next
    case (Suc j)
    with Cons show ?thesis by auto
  qed
qed

text \<open>
  C4, as the code has it. An update whose id is carried by no task leaves the task
  list as it was, and nothing is reported: \<^verbatim>\<open>upsertTask\<close> maps over the list, finds
  no match and completes. The code has no NotFoundError.
\<close>

theorem update_absent_id:
  "truthy (get payload (js ''id'')) \<Longrightarrow> \<forall>x \<in> set (tasks s). get x (js ''id'') \<noteq> get payload (js ''id'') \<Longrightarrow>
   fst (upsertTask u clock payload s) = Completed \<and> tasks (snd (upsertTask u clock payload s)) = tasks s"
  by (simp add: upsertTask_def merge_matching_absent)

theorem update_absent_id_witness:
  "tasks (snd (upsertTask (js ''k3j9x0a'') (\<lambda>k. js ''2025-11-11T08:00:00.000Z'')
         [js ''id'' \<mapsto> JStr (js ''zzzzzzz''), js ''title'' \<mapsto> JStr (js ''Fix truck 12'')]
         \<lparr>tasks = [[js ''id'' \<mapsto> JStr (js ''abc1234''), js ''title'' \<mapsto> JStr (js ''SAP progress update'')]],
          showForm = True, editing = None\<rparr>))
   = [[js ''id'' \<mapsto> JStr (js ''abc1234''), js ''title'' \<mapsto> JStr (js ''SAP progress update'')]]"
  using update_absent_id [of "[js ''id'' \<mapsto> JStr (js ''zzzzzzz''), js ''title'' \<mapsto> JStr (js ''Fix truck 12'')]"
      "\<lparr>tasks = [[js ''id'' \<mapsto> JStr (js ''abc1234''), js ''title'' \<mapsto> JStr (js ''SAP progress update'')]], showForm = True, editing = None\<rparr>"
      "js ''k3j9x0a''" "\<lambda>k. js ''2025-11-11T08:00:00.000Z''"]
  by (simp add: get_def js_eq_iff js_Nil_iff)

text \<open>
  The update of the absent id \<^verbatim>\<open>zzzzzzz\<close> completes normally: no alert, no exception.
\<close>

theorem update_absent_id_no_error:
  "fst (upsertTask (js ''k3j9x0a'') (\<lambda>k. js ''2025-11-11T08:00:00.000Z'')
         [js ''id'' \<mapsto> JStr (js ''zzzzzzz''), js ''title'' \<mapsto> JStr (js ''Fix truck 12'')]
         \<lparr>tasks = [[js ''id'' \<mapsto> JStr (js ''abc1234''), js ''title'' \<mapsto> JStr (js ''SAP progress update'')]],
          showForm = True, editing = None\<rparr>) = Completed"
  by (simp add: upsertTask_def get_def)

text \<open>
  C5, as the code has it. After an update (a payload with a non-empty id), the list
  has its length, every task has its id, and every property that the payload does
  not name, \<^verbatim>\<open>updatedAt\<close> apart, has its value; so \<^verbatim>\<open>createdAt\<close> is kept
  whenever the payload does not name it.
\<close>

theorem update_frame:
  assumes "truthy (get payload (js ''id''))" and "i < length (tasks s)"
  shows "length (tasks (snd (upsertTask u clock payload s))) = length (tasks s) \<and>
         (tasks (snd (upsertTask u clock payload s)) ! i) (js ''id'') = (tasks s ! i) (js ''id'') \<and>
         (\<forall>key. key \<notin> dom payload \<and> key \<noteq> js ''updatedAt'' \<longrightarrow>
            (tasks (snd (upsertTask u clock payload s)) ! i) key = (tasks s ! i) key)"
proof (cases "truthy (get payload (js ''title''))")
  case True
  with assms(1) have "tasks (snd (upsertTask u clock payload s)) = merge_matching clock 0 payload (tasks s)"
    by (simp add: upsertTask_def)
  with merge_matching_frame [OF assms(2) assms(1), of clock 0] merge_matching_length [of clock 0 payload "tasks s"]
  show ?thesis by simp
next
  case False
  then show ?thesis by (simp add: upsertTask_def)
qed

theorem update_frame_witness:
  "(tasks (snd (upsertTask (js ''k3j9x0a'') (\<lambda>k. js ''2025-11-12T10:00:00.000Z'')
       [js ''id'' \<mapsto> JStr (js ''abc1234''), js ''title'' \<mapsto> JStr (js ''Fix truck 12''), js ''status'' \<mapsto> JStr (js ''Done'')]
       \<lparr>tasks = [[js ''id'' \<mapsto> JStr (js ''abc1234''), js ''title'' \<mapsto> JStr (js ''Fix truck''),
                   js ''assignee'' \<mapsto> JStr (js ''Rami''),
                   js ''createdAt'' \<mapsto> JStr (js ''2025-11-11T08:00:00.000Z''),
                   js ''updatedAt'' \<mapsto> JStr (js ''2025-11-11T09:00:00.000Z'')]],
        showForm = True, editing = None\<rparr>)) ! 0) (js ''createdAt'') = Some (JStr (js ''2025-11-11T08:00:00.000Z'')) \<and>
   (tasks (snd (upsertTask (js ''k3j9x0a'') (\<lambda>k. js ''2025-11-12T10:00:00.000Z'')
       [js ''id'' \<mapsto> JStr (js ''abc1234''), js ''title'' \<mapsto> JStr (js ''Fix truck 12''), js ''status'' \<mapsto> JStr (js ''Done'')]
       \<lparr>tasks = [[js ''id'' \<mapsto> JStr (js ''abc1234''), js ''title'' \<mapsto> JStr (js ''Fix truck''),
                   js ''assignee'' \<mapsto> JStr (js ''Rami''),
                   js ''createdAt'' \<mapsto> JStr (js ''2025-11-11T08:00:00.000Z''),
                   js ''updatedAt'' \<mapsto> JStr (js ''2025-11-11T09:00:00.000Z'')]],
        showForm = True, editing = None\<rparr>)) ! 0) (js ''id'') = Some (JStr (js ''abc1234''))"
proof -
  let ?p = "[js ''id'' \<mapsto> JStr (js ''abc1234''), js ''title'' \<mapsto> JStr (js ''Fix truck 12''), js ''status'' \<mapsto> JStr (js ''Done'')]"
  let ?s = "\<lparr>tasks = [[js ''id'' \<mapsto> JStr (js ''abc1234''), js ''title'' \<mapsto> JStr (js ''Fix truck''),
                   js ''assignee'' \<mapsto> JStr (js ''Rami''),
                   js ''createdAt'' \<mapsto> JStr (js ''2025-11-11T08:00:00.000Z''),
                   js ''updatedAt'' \<mapsto> JStr (js ''2025-11-11T09:00:00.000Z'')]],
        showForm = True, editing = None\<rparr>"
  have h1: "truthy (get ?p (js ''id''))" by (simp add: get_def js_eq_iff js_Nil_iff)
  have h2: "0 < length (tasks ?s)" by simp
  have k: "js ''createdAt'' \<notin> dom ?p \<and> js ''createdAt'' \<noteq> js ''updatedAt''" by (simp add: js_eq_iff)
  from update_frame [OF h1 h2, of "js ''k3j9x0a''" "\<lambda>k. js ''2025-11-12T10:00:00.000Z''"] k
  show ?thesis by (simp add: js_eq_iff)
qed

text \<open>
  A payload that names \<^verbatim>\<open>createdAt\<close> replaces it: the spread copies every property
  of the payload over the stored task.
\<close>

theorem update_overwrites_createdAt:
  "get (tasks \<lparr>tasks = [[js ''id'' \<mapsto> JStr (js ''abc1234''), js ''title'' \<mapsto> JStr (js ''Fix truck''),
                   js ''createdAt'' \<mapsto> JStr (js ''2025-11-11T08:00:00.000Z''),
                   js ''updatedAt'' \<mapsto> JStr (js ''2025-11-11T09:00:00.000Z'')]],
        showForm = True, editing = None\<rparr> ! 0) (js ''createdAt'') = JStr (js ''2025-11-11T08:00:00.000Z'') \<and>
   get (tasks (snd (upsertTask (js ''k3j9x0a'') (\<lambda>k. js ''2025-11-12T10:00:00.000Z'')
       [js ''id'' \<mapsto> JStr (js ''abc1234''), js ''title'' \<mapsto> JStr (js ''Fix truck 12''),
        js ''createdAt'' \<mapsto> JStr (js ''1999-01-01T00:00:00.000Z'')]
       \<lparr>tasks = [[js ''id'' \<mapsto> JStr (js ''abc1234''), js ''title'' \<mapsto> JStr (js ''Fix truck''),
                   js ''createdAt'' \<mapsto> JStr (js ''2025-11-11T08:00:00.000Z''),
                   js ''updatedAt'' \<mapsto> JStr (js ''2025-11-11T09:00:00.000Z'')]],
        showForm = True, editing = None\<rparr>)) ! 0) (js ''createdAt'') = JStr (js ''1999-01-01T00:00:00.000Z'')"
  by (simp add: upsertTask_def get_def map_add_def js_eq_iff js_Nil_iff)

lemma upsertTask_without_title:
  "\<not> truthy (get payload (js ''title'')) \<Longrightarrow> upsertTask u clock payload s = (Completed, s)"
  by (simp add: upsertTask_def)

lemma new_task_id_undefined:
  assumes "initial f = None" and "trim (title f) \<noteq> []"
  shows "\<exists>t. tasks (snd (save u clock f s)) = t # tasks s \<and> get t (js ''id'') = JUndefined"
  using assms by (simp add: save_def save_payload_def upsertTask_def get_def map_add_def js_eq_iff)

text \<open>
  C6, at a failing input. Two tasks made one after the other through the form for a
  new task both end with the id \<^verbatim>\<open>undefined\<close>: the payload of \<^verbatim>\<open>TaskForm.save\<close>
  carries the property \<^verbatim>\<open>id\<close> with the value \<^verbatim>\<open>undefined\<close>, and the spread
  \<^verbatim>\<open>...payload\<close>, written after \<^verbatim>\<open>id: uid()\<close>, puts it over the fresh id.
\<close>

theorem form_created_ids_undefined:
  "map (\<lambda>t. get t (js ''id''))
     (tasks (snd (save (js ''p0q8w2e'') (\<lambda>k. js ''2025-11-11T09:00:00.000Z'') ((TaskForm None)\<lparr>title := js ''B''\<rparr>)
       (snd (save (js ''k3j9x0a'') (\<lambda>k. js ''2025-11-11T08:00:00.000Z'') ((TaskForm None)\<lparr>title := js ''A''\<rparr>)
          \<lparr>tasks = [], showForm = True, editing = None\<rparr>)))))
   = [JUndefined, JUndefined]"
  by (simp add: save_def TaskForm_def save_payload_def upsertTask_def trim_def js_whitespace_def get_def map_add_def js_eq_iff js_def)

section \<open>Sorting the derived list\<close>

lemma set_insert_js: "set (insert_js cmp x ys) = insert x (set ys)"
  by (induction ys) auto

text \<open>
  A comparator that answers below 0 exactly when the first key is not above the second
  (it never answers 0) makes the model the stable sort of the reversed list: the
  result is in the order of the keys, and elements of equal keys come out in reverse.
\<close>

lemma insert_js_insort_key:
  fixes key :: "'a \<Rightarrow> 'k::linorder"
  assumes "\<And>a b. cmp a b < 0 \<longleftrightarrow> key a \<le> key b"
  shows "insert_js cmp x ys = insort_key key x ys"
  by (induction ys) (simp_all add: assms)

lemma sort_js_ties_reversed:
  fixes key :: "'a \<Rightarrow> 'k::linorder"
  assumes "\<And>a b. cmp a b < 0 \<longleftrightarrow> key a \<le> key b"
  shows "sort_js cmp xs = sort_key key (rev xs)"
proof -
  have "insert_js cmp = insort_key key"
    by (intro ext) (rule insert_js_insort_key [OF assms])
  then show ?thesis
    by (simp add: sort_js_def sort_key_def foldr_conv_fold)
qed

lemma sort_js_dueDate:
  "sort_js cmp_dueDate ts = sort_key (\<lambda>t. or_str (get t (js ''dueDate'')) (js ''9999'')) (rev ts)"
  by (rule sort_js_ties_reversed) (auto simp: cmp_dueDate_def)

lemma sort_js_dueDate_sorted:
  "sorted (map (\<lambda>t. or_str (get t (js ''dueDate'')) (js ''9999'')) (sort_js cmp_dueDate ts))"
  by (simp add: sort_js_dueDate)

text \<open>
  The scenario of the specification: A (due 2025-01-01), B (no due date) and
  C (due 2024-06-01) come out as C, A, B.
\<close>

lemma due_date_scenario:
  "visibleTasks lower [] (js ''All'') (js ''All'') (js ''dueDate'')
     [[js ''id'' \<mapsto> JStr (js ''A''), js ''title'' \<mapsto> JStr (js ''a''), js ''dueDate'' \<mapsto> JStr (js ''2025-01-01'')],
      [js ''id'' \<mapsto> JStr (js ''B''), js ''title'' \<mapsto> JStr (js ''b''), js ''dueDate'' \<mapsto> JStr []],
      [js ''id'' \<mapsto> JStr (js ''C''), js ''title'' \<mapsto> JStr (js ''c''), js ''dueDate'' \<mapsto> JStr (js ''2024-06-01'')]]
   = Some [[js ''id'' \<mapsto> JStr (js ''C''), js ''title'' \<mapsto> JStr (js ''c''), js ''dueDate'' \<mapsto> JStr (js ''2024-06-01'')],
           [js ''id'' \<mapsto> JStr (js ''A''), js ''title'' \<mapsto> JStr (js ''a''), js ''dueDate'' \<mapsto> JStr (js ''2025-01-01'')],
           [js ''id'' \<mapsto> JStr (js ''B''), js ''title'' \<mapsto> JStr (js ''b''), js ''dueDate'' \<mapsto> JStr []]]"
  by (simp add: visibleTasks_def trim_def sort_js_def cmp_dueDate_def get_def or_str_def js_def)

text \<open>
  The comparator of the priority sort answers 0 for two tasks of the same priority,
  and they keep their order.
\<close>

lemma priority_ties_kept:
  "cmp_priority [js ''id'' \<mapsto> JStr (js ''a''), js ''priority'' \<mapsto> JStr (js ''High'')]
                [js ''id'' \<mapsto> JStr (js ''b''), js ''priority'' \<mapsto> JStr (js ''High'')] = 0 \<and>
   visibleTasks lower [] (js ''All'') (js ''All'') (js ''priority'')
     [[js ''id'' \<mapsto> JStr (js ''a''), js ''priority'' \<mapsto> JStr (js ''High'')],
      [js ''id'' \<mapsto> JStr (js ''b''), js ''priority'' \<mapsto> JStr (js ''High'')]]
   = Some [[js ''id'' \<mapsto> JStr (js ''a''), js ''priority'' \<mapsto> JStr (js ''High'')],
           [js ''id'' \<mapsto> JStr (js ''b''), js ''priority'' \<mapsto> JStr (js ''High'')]]"
  by (simp add: visibleTasks_def trim_def sort_js_def cmp_priority_def order_rank_def get_def js_def)

text \<open>
  C3, at a failing input. The comparator of the due-date sort never answers 0: for the
  two seed tasks, which have no due date, it answers \<open>- 1\<close> in both directions, so that
  it is no consistent comparison function and the order of the two is left to the
  engine. In the model the derived list holds them in reverse order, and sorting that
  list again turns them back.
\<close>

theorem dueDate_ties_reversed:
  "cmp_dueDate (sampleTasks (js ''k3j9x0a'') (js ''p0q8w2e'') (\<lambda>k. js ''2025-11-11T08:00:00.000Z'') ! 0)
               (sampleTasks (js ''k3j9x0a'') (js ''p0q8w2e'') (\<lambda>k. js ''2025-11-11T08:00:00.000Z'') ! 1) = - 1 \<and>
   cmp_dueDate (sampleTasks (js ''k3j9x0a'') (js ''p0q8w2e'') (\<lambda>k. js ''2025-11-11T08:00:00.000Z'') ! 1)
               (sampleTasks (js ''k3j9x0a'') (js ''p0q8w2e'') (\<lambda>k. js ''2025-11-11T08:00:00.000Z'') ! 0) = - 1 \<and>
   visibleTasks lower [] (js ''All'') (js ''All'') (js ''dueDate'')
       (sampleTasks (js ''k3j9x0a'') (js ''p0q8w2e'') (\<lambda>k. js ''2025-11-11T08:00:00.000Z''))
     = Some (rev (sampleTasks (js ''k3j9x0a'') (js ''p0q8w2e'') (\<lambda>k. js ''2025-11-11T08:00:00.000Z''))) \<and>
   visibleTasks lower [] (js ''All'') (js ''All'') (js ''dueDate'')
       (rev (sampleTasks (js ''k3j9x0a'') (js ''p0q8w2e'') (\<lambda>k. js ''2025-11-11T08:00:00.000Z'')))
     = Some (sampleTasks (js ''k3j9x0a'') (js ''p0q8w2e'') (\<lambda>k. js ''2025-11-11T08:00:00.000Z''))"
  by (simp add: sampleTasks_def visibleTasks_def trim_def sort_js_def cmp_dueDate_def get_def or_str_def js_eq_iff js_Nil_iff)

text \<open>
  C7, at a failing input. A task without a due date is compared as \<^verbatim>\<open>"9999"\<close>, which
  is not the greatest date string: a task due 9999-12-31 comes after the task with no
  due date.
\<close>

theorem year_9999_after_undated:
  "visibleTasks lower [] (js ''All'') (js ''All'') (js ''dueDate'')
     [[js ''id'' \<mapsto> JStr (js ''a''), js ''title'' \<mapsto> JStr (js ''A''), js ''dueDate'' \<mapsto> JStr (js ''9999-12-31'')],
      [js ''id'' \<mapsto> JStr (js ''b''), js ''title'' \<mapsto> JStr (js ''B''), js ''dueDate'' \<mapsto> JStr []]]
   = Some [[js ''id'' \<mapsto> JStr (js ''b''), js ''title'' \<mapsto> JStr (js ''B''), js ''dueDate'' \<mapsto> JStr []],
           [js ''id'' \<mapsto> JStr (js ''a''), js ''title'' \<mapsto> JStr (js ''A''), js ''dueDate'' \<mapsto> JStr (js ''9999-12-31'')]]"
  by (simp add: visibleTasks_def trim_def sort_js_def cmp_dueDate_def get_def or_str_def js_def)

text \<open>
  A comparator that answers below 0 exactly when the first key is below the second
  makes the model the stable sort of the list, which is what ECMAScript asks of the
  engine for a consistent comparison function. The comparator of the priority sort is
  of that kind on tasks whose priority is no inherited property name.
\<close>

lemma insert_js_insort_commute:
  fixes key :: "'a \<Rightarrow> 'k::linorder"
  assumes "\<And>a b. a \<in> A \<Longrightarrow> b \<in> A \<Longrightarrow> cmp a b < 0 \<longleftrightarrow> key a < key b"
    and "x \<in> A" "y \<in> A" "set zs \<subseteq> A"
  shows "insert_js cmp x (insort_key key y zs) = insort_key key y (insert_js cmp x zs)"
  using assms(4)
proof (induction zs)
  case Nil
  then show ?case using assms(1) [OF assms(2) assms(3)] by auto
next
  case (Cons z zs)
  then have z: "z \<in> A" and zs: "set zs \<subseteq> A" by auto
  show ?case
    using assms(1) [OF assms(2) assms(3)] assms(1) [OF assms(2) z] Cons.IH [OF zs] by auto
qed

lemma fold_insert_js_insort:
  fixes key :: "'a \<Rightarrow> 'k::linorder"
  assumes "\<And>a b. a \<in> A \<Longrightarrow> b \<in> A \<Longrightarrow> cmp a b < 0 \<longleftrightarrow> key a < key b"
    and "y \<in> A"
  shows "set xs \<subseteq> A \<Longrightarrow> set acc \<subseteq> A \<Longrightarrow>
         fold (insert_js cmp) xs (insort_key key y acc) = insort_key key y (fold (insert_js cmp) xs acc)"
proof (induction xs arbitrary: acc)
  case Nil
  then show ?case by simp
next
  case (Cons x xs)
  then have x: "x \<in> A" and xs: "set xs \<subseteq> A" by auto
  have "set (insert_js cmp x acc) \<subseteq> A"
    using Cons.prems(2) x by (simp add: set_insert_js)
  from Cons.IH [OF xs this] show ?case
    using insert_js_insort_commute [of A cmp key x y acc, OF assms(1) x assms(2) Cons.prems(2)] by simp
qed

lemma sort_js_stable:
  fixes key :: "'a \<Rightarrow> 'k::linorder"
  assumes "\<And>a b. a \<in> A \<Longrightarrow> b \<in> A \<Longrightarrow> cmp a b < 0 \<longleftrightarrow> key a < key b"
  shows "set xs \<subseteq> A \<Longrightarrow> sort_js cmp xs = sort_key key xs"
proof (induction xs)
  case Nil
  then show ?case by (simp add: sort_js_def)
next
  case (Cons x xs)
  then have x: "x \<in> A" and xs: "set xs \<subseteq> A" by auto
  have "sort_js cmp (x # xs) = fold (insert_js cmp) xs (insort_key key x [])"
    by (simp add: sort_js_def)
  also have "\<dots> = insort_key key x (fold (insert_js cmp) xs [])"
    using fold_insert_js_insort [of A cmp key x xs "[]", OF assms x xs] by simp
  also have "\<dots> = sort_key key (x # xs)"
    using Cons.IH [OF xs] by (simp add: sort_js_def)
  finally show ?case .
qed

lemma sort_js_priority:
  assumes "\<forall>t \<in> set ts. order_rank (get t (js ''priority'')) \<noteq> None"
  shows "sort_js cmp_priority ts
         = sort_key (\<lambda>t. case order_rank (get t (js ''priority'')) of None \<Rightarrow> 0 | Some r \<Rightarrow> r) ts"
proof (rule sort_js_stable [where A = "{t. order_rank (get t (js ''priority'')) \<noteq> None}"])
  show "set ts \<subseteq> {t. order_rank (get t (js ''priority'')) \<noteq> None}" using assms by auto
next
  fix a b :: obj
  assume "a \<in> {t. order_rank (get t (js ''priority'')) \<noteq> None}" "b \<in> {t. order_rank (get t (js ''priority'')) \<noteq> None}"
  then show "cmp_priority a b < 0 \<longleftrightarrow>
      (case order_rank (get a (js ''priority'')) of None \<Rightarrow> 0 | Some r \<Rightarrow> r)
      < (case order_rank (get b (js ''priority'')) of None \<Rightarrow> 0 | Some r \<Rightarrow> r)"
    by (auto simp: cmp_priority_def)
qed

lemma priority_sort_stable:
  assumes "\<forall>t \<in> set ts. order_rank (get t (js ''priority'')) \<noteq> None"
  shows "filter (\<lambda>t. order_rank (get t (js ''priority'')) = Some r) (sort_js cmp_priority ts)
         = filter (\<lambda>t. order_rank (get t (js ''priority'')) = Some r) ts"
proof -
  let ?key = "\<lambda>t. case order_rank (get t (js ''priority'')) of None \<Rightarrow> 0 | Some r \<Rightarrow> r"
  have eq: "(order_rank (get t (js ''priority'')) = Some r) = (?key t = r)" if "t \<in> set ts" for t
    using that assms by (auto split: option.splits)
  have "filter (\<lambda>t. order_rank (get t (js ''priority'')) = Some r) (sort_js cmp_priority ts)
        = filter (\<lambda>t. ?key t = r) (sort_key ?key ts)"
    unfolding sort_js_priority [OF assms]
    by (rule filter_cong) (use eq in auto)
  also have "\<dots> = filter (\<lambda>t. ?key t = r) ts"
    by (rule sort_key_stable)
  also have "\<dots> = filter (\<lambda>t. order_rank (get t (js ''priority'')) = Some r) ts"
    by (rule filter_cong) (use eq in auto)
  finally show ?thesis .
qed

section \<open>JSON strings\<close>

lemma hex_table:
  "\<forall>k \<in> set [0..<16]. hex_value (hex_digit k) = Some k \<and> hex_digit k \<in> set (js ''0123456789abcdef'')"
  by code_simp

lemma hex_digit_mod: "hex_digit k = hex_digit (k mod 16)"
  by (simp add: hex_digit_def)

lemma hex_value_hex_digit: "hex_value (hex_digit k) = Some (k mod 16)"
proof -
  have "k mod 16 \<in> set [0..<16]" by simp
  with hex_table have "hex_value (hex_digit (k mod 16)) = Some (k mod 16)" by blast
  then show ?thesis using hex_digit_mod [of k] by simp
qed

lemma hex_digit_range: "hex_digit k \<in> set (js ''0123456789abcdef'')"
proof -
  have "k mod 16 \<in> set [0..<16]" by simp
  with hex_table have "hex_digit (k mod 16) \<in> set (js ''0123456789abcdef'')" by blast
  then show ?thesis using hex_digit_mod [of k] by simp
qed

lemma push_unit_Some: "push_unit c (Some (s, r)) = Some (c # s, r)"
  by (simp add: push_unit_def)

lemma parse_chars_quote: "parse_chars (DQ # r) = Some ([], r)"
  by simp

lemma parse_chars_plain:
  "c \<noteq> DQ \<Longrightarrow> c \<noteq> BSL \<Longrightarrow> \<not> c < 0x20 \<Longrightarrow> parse_chars (c # r) = push_unit c (parse_chars r)"
  by simp

lemma parse_chars_short:
  "e \<noteq> 0x75 \<Longrightarrow> unescape e = Some ch \<Longrightarrow> parse_chars (BSL # e # r) = push_unit ch (parse_chars r)"
  by simp

lemma parse_chars_unicode_step:
  "hex_value h1 = Some a \<Longrightarrow> hex_value h2 = Some b \<Longrightarrow> hex_value h3 = Some c \<Longrightarrow> hex_value h4 = Some d \<Longrightarrow>
   parse_chars (BSL # 0x75 # h1 # h2 # h3 # h4 # r)
     = push_unit (of_nat (4096 * a + 256 * b + 16 * c + d)) (parse_chars r)"
  by simp

lemma hex_digits_value:
  "4096 * (n div 4096 mod 16) + 256 * (n div 256 mod 16) + 16 * (n div 16 mod 16) + n mod 16 = (n::nat) mod 65536"
proof -
  have a: "n div 16 mod 16 * 16 + n mod 16 = n mod 256"
    using mod_mult2_eq [of n 16 16] by simp
  have b: "n div 256 mod 16 * 256 + n mod 256 = n mod 4096"
    using mod_mult2_eq [of n 256 16] by simp
  have c: "n div 4096 mod 16 * 4096 + n mod 4096 = n mod 65536"
    using mod_mult2_eq [of n 4096 16] by simp
  from a b c show ?thesis by linarith
qed

lemma parse_chars_UnicodeEscape:
  "parse_chars (UnicodeEscape c @ r) = push_unit c (parse_chars r)"
proof -
  let ?n = "unat c"
  have lt: "?n < 65536" using unsigned_less [of c, where ?'a = nat] by simp
  have "parse_chars (BSL # 0x75 # hex_digit (?n div 4096) # hex_digit (?n div 256) # hex_digit (?n div 16) # hex_digit ?n # r)
        = push_unit (of_nat (4096 * (?n div 4096 mod 16) + 256 * (?n div 256 mod 16) + 16 * (?n div 16 mod 16) + ?n mod 16))
            (parse_chars r)"
    by (rule parse_chars_unicode_step) (rule hex_value_hex_digit)+
  also have "(of_nat (4096 * (?n div 4096 mod 16) + 256 * (?n div 256 mod 16) + 16 * (?n div 16 mod 16) + ?n mod 16) :: code_unit)
             = of_nat ?n"
    using hex_digits_value [of ?n] lt by simp
  also have "(of_nat ?n :: code_unit) = c" by simp
  finally show ?thesis by (simp add: UnicodeEscape_def del: parse_chars.simps)
qed

lemma parse_chars_escape: "parse_chars (escape_unit c @ r) = push_unit c (parse_chars r)"
proof -
  consider (short) "c \<in> set [0x08, 0x09, LF, 0x0C, CR, DQ, BSL]"
    | (unicode) "c \<notin> set [0x08, 0x09, LF, 0x0C, CR, DQ, BSL]" "c < 0x20 \<or> surrogate c"
    | (plain) "c \<notin> set [0x08, 0x09, LF, 0x0C, CR, DQ, BSL]" "\<not> (c < 0x20 \<or> surrogate c)"
    by blast
  then show ?thesis
  proof cases
    case short
    then obtain e where e: "escape_unit c = [BSL, e]" "e \<noteq> 0x75" "unescape e = Some c"
      by (auto simp: escape_unit_def unescape_def)
    then show ?thesis
      using parse_chars_short [of e c r] by (simp del: parse_chars.simps)
  next
    case unicode
    then have "escape_unit c = UnicodeEscape c"
      by (simp add: escape_unit_def)
    then show ?thesis
      by (simp add: parse_chars_UnicodeEscape del: parse_chars.simps)
  next
    case plain
    then have "escape_unit c = [c]" by (simp add: escape_unit_def)
    then show ?thesis
      using plain parse_chars_plain [of c r] by (simp del: parse_chars.simps)
  qed
qed

lemma parse_chars_quoted:
  "parse_chars (quote_units v @ DQ # r) = Some (v, r)"
proof (induction v rule: quote_units.induct)
  case 1
  then show ?case by (simp add: parse_chars_quote del: parse_chars.simps)
next
  case (2 c)
  then show ?case
    by (simp add: parse_chars_escape parse_chars_quote push_unit_Some del: parse_chars.simps)
next
  case (3 c d cs)
  show ?case
  proof (cases "0xD800 \<le> c \<and> c \<le> 0xDBFF \<and> 0xDC00 \<le> d \<and> d \<le> 0xDFFF")
    case True
    then have c: "c \<noteq> DQ" "c \<noteq> BSL" "\<not> c < 0x20" and d: "d \<noteq> DQ" "d \<noteq> BSL" "\<not> d < 0x20"
      by (auto simp: word_le_nat_alt word_less_nat_alt)
    have q: "quote_units (c # d # cs) = c # d # quote_units cs"
      using True by (simp only: quote_units.simps simp_thms if_True)
    have ih: "parse_chars (quote_units cs @ DQ # r) = Some (cs, r)"
      using True by (rule 3(1))
    have "parse_chars (c # d # quote_units cs @ DQ # r) = push_unit c (push_unit d (parse_chars (quote_units cs @ DQ # r)))"
      by (simp only: parse_chars_plain [OF c] parse_chars_plain [OF d])
    then show ?thesis
      unfolding q by (simp add: ih push_unit_Some del: parse_chars.simps quote_units.simps)
  next
    case False
    then have q: "quote_units (c # d # cs) = escape_unit c @ quote_units (d # cs)"
      by (simp only: quote_units.simps if_False)
    have "parse_chars (quote_units (d # cs) @ DQ # r) = Some (d # cs, r)"
      using False by (rule 3(2))
    then show ?thesis
      unfolding q by (simp add: parse_chars_escape push_unit_Some del: parse_chars.simps quote_units.simps)
  qed
qed

lemma JSON_parse_stringify: "JSON_parse (JSON_stringify v) = Some v"
  using parse_chars_quoted [of v "[]"]
  by (simp add: JSON_parse_def JSON_stringify_def json_ws_def del: parse_chars.simps)

section \<open>Splitting an exported row\<close>

lemma hex_digit_not_special: "hex_digit k \<noteq> DQ \<and> hex_digit k \<noteq> LF \<and> hex_digit k \<noteq> CR"
  using hex_digit_range [of k] by (auto simp: js_def)

lemma escape_unit_no_quote: "c \<noteq> DQ \<Longrightarrow> DQ \<notin> set (escape_unit c)"
  using hex_digit_not_special by (auto simp: escape_unit_def UnicodeEscape_def)

lemma escape_unit_no_break: "LF \<notin> set (escape_unit c) \<and> CR \<notin> set (escape_unit c)"
  using hex_digit_not_special by (auto simp: escape_unit_def UnicodeEscape_def)

lemma quote_units_no_quote: "DQ \<notin> set v \<Longrightarrow> DQ \<notin> set (quote_units v)"
proof (induction v rule: quote_units.induct)
  case 1
  then show ?case by simp
next
  case (2 c)
  then show ?case by (simp add: escape_unit_no_quote)
next
  case (3 c d cs)
  then show ?case by (auto simp: escape_unit_no_quote)
qed

lemma quote_units_no_break: "LF \<notin> set (quote_units v) \<and> CR \<notin> set (quote_units v)"
proof (induction v rule: quote_units.induct)
  case 1
  then show ?case by simp
next
  case (2 c)
  then show ?case by (simp add: escape_unit_no_break)
next
  case (3 c d cs)
  show ?case
  proof (cases "0xD800 \<le> c \<and> c \<le> 0xDBFF \<and> 0xDC00 \<le> d \<and> d \<le> 0xDFFF")
    case True
    then have "c \<noteq> LF" "c \<noteq> CR" "d \<noteq> LF" "d \<noteq> CR" by auto
    moreover have "LF \<notin> set (quote_units cs) \<and> CR \<notin> set (quote_units cs)"
      using True by (rule 3(1))
    moreover have "quote_units (c # d # cs) = c # d # quote_units cs"
      using True by (simp only: quote_units.simps simp_thms if_True)
    ultimately show ?thesis by (simp del: quote_units.simps)
  next
    case False
    then have "quote_units (c # d # cs) = escape_unit c @ quote_units (d # cs)"
      by (simp only: quote_units.simps if_False)
    moreover have "LF \<notin> set (quote_units (d # cs)) \<and> CR \<notin> set (quote_units (d # cs))"
      using False by (rule 3(2))
    ultimately show ?thesis using escape_unit_no_break [of c] by (simp del: quote_units.simps)
  qed
qed

lemma scan_quoted: "DQ \<notin> set e \<Longrightarrow> scan (e @ r) cur True parts = scan r (cur @ e) True parts"
  by (induction e arbitrary: cur) auto

lemma scan_field:
  "DQ \<notin> set e \<Longrightarrow> scan (DQ # e @ DQ # r) cur False parts = scan r (cur @ e) False parts"
  by (simp add: scan_quoted)

lemma scan_fields:
  "\<forall>e \<in> set (e0 # es). DQ \<notin> set e \<Longrightarrow>
   scan (join [COMMA] (map (\<lambda>e. DQ # e @ [DQ]) (e0 # es))) [] False parts = parts @ e0 # es"
proof (induction es arbitrary: e0 parts)
  case Nil
  then show ?case using scan_field [of e0 "[]" "[]" parts] by simp
next
  case (Cons e1 es)
  have "scan (join [COMMA] (map (\<lambda>e. DQ # e @ [DQ]) (e0 # e1 # es))) [] False parts
        = scan (DQ # e0 @ DQ # (COMMA # join [COMMA] (map (\<lambda>e. DQ # e @ [DQ]) (e1 # es)))) [] False parts"
    by simp
  also have "\<dots> = scan (COMMA # join [COMMA] (map (\<lambda>e. DQ # e @ [DQ]) (e1 # es))) e0 False parts"
    using Cons.prems scan_field [of e0 "COMMA # join [COMMA] (map (\<lambda>e. DQ # e @ [DQ]) (e1 # es))" "[]" parts]
    by simp
  also have "\<dots> = scan (join [COMMA] (map (\<lambda>e. DQ # e @ [DQ]) (e1 # es))) [] False (parts @ [e0])"
    by simp
  also have "\<dots> = (parts @ [e0]) @ e1 # es"
    using Cons.prems by (intro Cons.IH) simp
  finally show ?case by simp
qed

lemma splitCSVLine_stringified:
  assumes "vs \<noteq> []" "\<forall>v \<in> set vs. DQ \<notin> set v"
  shows "splitCSVLine (join [COMMA] (map JSON_stringify vs)) = map JSON_stringify vs"
proof -
  obtain v0 vs' where vs: "vs = v0 # vs'" using assms(1) by (cases vs) auto
  let ?es = "map quote_units vs"
  have es: "?es = quote_units v0 # map quote_units vs'"
    by (simp add: vs)
  have nq: "\<forall>e \<in> set ?es. DQ \<notin> set e"
    using assms(2) quote_units_no_quote by auto
  have m: "map JSON_stringify vs = map (\<lambda>e. DQ # e @ [DQ]) ?es"
    by (simp add: JSON_stringify_def)
  have "scan (join [COMMA] (map (\<lambda>e. DQ # e @ [DQ]) ?es)) [] False [] = [] @ ?es"
    unfolding es by (rule scan_fields) (use nq es in simp)
  then show ?thesis
    by (simp add: splitCSVLine_def m)
qed




section \<open>Export followed by import\<close>

lemma split_lines_LF: "split_lines (LF # x) = [] # split_lines x"
  by (cases x) auto

lemma split_lines_Cons:
  "x \<noteq> [] \<Longrightarrow> c \<noteq> LF \<Longrightarrow> c \<noteq> CR \<Longrightarrow>
   split_lines (c # x) = (case split_lines x of [] \<Rightarrow> [[c]] | l # ls \<Rightarrow> (c # l) # ls)"
  by (cases x) auto

lemma split_lines_line:
  "LF \<notin> set l \<Longrightarrow> CR \<notin> set l \<Longrightarrow> split_lines (l @ LF # r) = l # split_lines r"
proof (induction l)
  case Nil
  then show ?case by (simp add: split_lines_LF del: split_lines.simps)
next
  case (Cons c l)
  then have "split_lines (c # (l @ LF # r)) = (case split_lines (l @ LF # r) of [] \<Rightarrow> [[c]] | k # ls \<Rightarrow> (c # k) # ls)"
    by (intro split_lines_Cons) auto
  with Cons show ?case by (simp del: split_lines.simps)
qed

lemma split_lines_last:
  "LF \<notin> set l \<Longrightarrow> CR \<notin> set l \<Longrightarrow> split_lines l = [l]"
proof (induction l)
  case Nil
  then show ?case by simp
next
  case (Cons c l)
  show ?case
  proof (cases l)
    case Nil
    with Cons.prems show ?thesis by simp
  next
    case (Cons d l')
    then have "split_lines (c # l) = (case split_lines l of [] \<Rightarrow> [[c]] | k # ls \<Rightarrow> (c # k) # ls)"
      using Cons.prems by (intro split_lines_Cons) auto
    with Cons.IH Cons.prems show ?thesis by (simp del: split_lines.simps)
  qed
qed

lemma split_lines_join:
  "\<forall>l \<in> set (l0 # ls). LF \<notin> set l \<and> CR \<notin> set l \<Longrightarrow> split_lines (join [LF] (l0 # ls)) = l0 # ls"
proof (induction ls arbitrary: l0)
  case Nil
  then show ?case by (simp add: split_lines_last del: split_lines.simps)
next
  case (Cons l1 ls)
  have "split_lines (join [LF] (l0 # l1 # ls)) = split_lines (l0 @ LF # join [LF] (l1 # ls))"
    by simp
  also have "\<dots> = l0 # split_lines (join [LF] (l1 # ls))"
    using Cons.prems by (intro split_lines_line) auto
  also have "split_lines (join [LF] (l1 # ls)) = l1 # ls"
    using Cons.prems by (intro Cons.IH) auto
  finally show ?case .
qed

lemma set_join: "set (join sep xs) \<subseteq> set sep \<union> \<Union> (set ` set xs)"
  by (induction sep xs rule: join.induct) auto

lemma JSON_stringify_no_break: "LF \<notin> set (JSON_stringify v) \<and> CR \<notin> set (JSON_stringify v)"
  using quote_units_no_break [of v] by (simp add: JSON_stringify_def)

lemma export_row_no_break: "LF \<notin> set (export_row t) \<and> CR \<notin> set (export_row t)"
proof -
  have "set (export_row t) \<subseteq> set [COMMA] \<union> \<Union> (set ` set (map (\<lambda>h. JSON_stringify (or_str (get t h) [])) header))"
    unfolding export_row_def by (rule set_join)
  then show ?thesis using JSON_stringify_no_break by fastforce
qed

lemma export_row_nonempty: "export_row t \<noteq> []"
  by (simp add: export_row_def header_def JSON_stringify_def)

lemma header_line_parsed:
  "map (filter (\<lambda>c. c \<noteq> DQ)) (split_comma (join [COMMA] header)) = header"
  by (simp add: header_def js_def)

lemma header_line_no_break: "LF \<notin> set (join [COMMA] header) \<and> CR \<notin> set (join [COMMA] header)"
  by (simp add: header_def js_def)

lemma header_line_nonempty: "join [COMMA] header \<noteq> []"
  by (simp add: header_def js_def)

lemma JSON_stringify_nonempty: "JSON_stringify v \<noteq> []"
  by (simp add: JSON_stringify_def)

lemma splitCSVLine_export_row:
  assumes "\<forall>h \<in> set header. DQ \<notin> set (or_str (get t h) [])"
  shows "splitCSVLine (export_row t) = map (\<lambda>h. JSON_stringify (or_str (get t h) [])) header"
proof -
  have "splitCSVLine (join [COMMA] (map JSON_stringify (map (\<lambda>h. or_str (get t h) []) header)))
        = map JSON_stringify (map (\<lambda>h. or_str (get t h) []) header)"
    using assms by (intro splitCSVLine_stringified) (auto simp: header_def)
  then show ?thesis by (simp add: export_row_def comp_def)
qed

lemma row_obj_export_row:
  assumes "\<forall>h \<in> set header. DQ \<notin> set (or_str (get t h) [])"
  shows "\<exists>ob. row_obj header (export_row t) = Some ob \<and>
              (\<forall>h \<in> set header. ob h = Some (JStr (or_str (get t h) [])))"
  unfolding row_obj_def splitCSVLine_export_row [OF assms]
  by (simp add: header_def JSON_parse_stringify JSON_stringify_nonempty set_prop_def js_eq_iff)

lemma those_rows:
  assumes "\<forall>t \<in> set ts. \<forall>h \<in> set header. DQ \<notin> set (or_str (get t h) [])"
  shows "\<exists>obs. those (map (row_obj header) (map export_row ts)) = Some obs \<and>
           list_all2 (\<lambda>ob t. \<forall>h \<in> set header. ob h = Some (JStr (or_str (get t h) []))) obs ts"
  using assms
proof (induction ts)
  case Nil
  then show ?case by simp
next
  case (Cons t ts)
  from Cons.prems obtain ob where ob: "row_obj header (export_row t) = Some ob"
      "\<forall>h \<in> set header. ob h = Some (JStr (or_str (get t h) []))"
    using row_obj_export_row [of t] by auto
  from Cons obtain obs where obs: "those (map (row_obj header) (map export_row ts)) = Some obs"
      "list_all2 (\<lambda>ob t. \<forall>h \<in> set header. ob h = Some (JStr (or_str (get t h) []))) obs ts"
    by auto
  show ?case using ob obs by simp
qed

lemma exported_lines:
  "filter (\<lambda>l. l \<noteq> []) (split_lines (exportCSV ts)) = join [COMMA] header # map export_row ts"
proof -
  have "\<forall>l \<in> set (join [COMMA] header # map export_row ts). LF \<notin> set l \<and> CR \<notin> set l"
    using header_line_no_break export_row_no_break by auto
  then have "split_lines (exportCSV ts) = join [COMMA] header # map export_row ts"
    unfolding exportCSV_def by (rule split_lines_join)
  moreover have "\<forall>l \<in> set (join [COMMA] header # map export_row ts). l \<noteq> []"
    using export_row_nonempty header_line_nonempty by auto
  ultimately show ?thesis by simp
qed

lemma import_exported:
  assumes "\<forall>t \<in> set ts. \<forall>h \<in> set header. DQ \<notin> set (or_str (get t h) [])"
  shows "\<exists>obs. tasks (snd (importCSV (exportCSV ts) s)) = obs @ tasks s \<and>
           list_all2 (\<lambda>ob t. \<forall>h \<in> set header. ob h = Some (JStr (or_str (get t h) []))) obs ts"
proof (cases ts)
  case Nil
  then show ?thesis
    by (simp add: importCSV_def exported_lines)
next
  case (Cons t ts')
  from those_rows [OF assms] obtain obs where obs:
      "those (map (row_obj header) (map export_row ts)) = Some obs"
      "list_all2 (\<lambda>ob t. \<forall>h \<in> set header. ob h = Some (JStr (or_str (get t h) []))) obs ts"
    by blast
  have "importCSV (exportCSV ts) s = (Completed, s\<lparr>tasks := obs @ tasks s\<rparr>)"
    using obs(1) unfolding importCSV_def exported_lines Cons
    by (simp add: header_line_parsed del: those.simps)
  with obs(2) show ?thesis by auto
qed

text \<open>
  C2, as the code has it. For a collection in which each of the nine schema fields of
  each task is a string without a quote character, the text of the export, imported
  into an empty collection, gives a collection of the same length that agrees with
  the original on all nine fields, the id and the two timestamps included.
\<close>

theorem export_import_roundtrip:
  assumes "\<forall>t \<in> set ts. \<forall>h \<in> set header. \<exists>v. t h = Some (JStr v) \<and> DQ \<notin> set v"
      and "tasks s = []"
  shows "length (tasks (snd (importCSV (exportCSV ts) s))) = length ts \<and>
         (\<forall>i < length ts. \<forall>h \<in> set header.
            (tasks (snd (importCSV (exportCSV ts) s)) ! i) h = (ts ! i) h)"
proof -
  have str: "or_str (get t h) [] = v" if "t h = Some (JStr v)" for t h v
    using that by (simp add: or_str_def get_def)
  have nq: "\<forall>t \<in> set ts. \<forall>h \<in> set header. DQ \<notin> set (or_str (get t h) [])"
    using assms(1) str by fastforce
  from import_exported [OF nq, of s] assms(2) obtain obs where obs:
      "tasks (snd (importCSV (exportCSV ts) s)) = obs"
      "list_all2 (\<lambda>ob t. \<forall>h \<in> set header. ob h = Some (JStr (or_str (get t h) []))) obs ts"
    by auto
  have len: "length obs = length ts" using obs(2) by (rule list_all2_lengthD)
  have "(obs ! i) h = (ts ! i) h" if "i < length ts" "h \<in> set header" for i h
  proof -
    from that assms(1) obtain v where v: "(ts ! i) h = Some (JStr v)"
      by (meson nth_mem)
    from obs(2) that have "(obs ! i) h = Some (JStr (or_str (get (ts ! i) h) []))"
      by (simp add: list_all2_conv_all_nth)
    with v str show ?thesis by simp
  qed
  with len obs(1) show ?thesis by simp
qed

theorem export_import_roundtrip_witness:
  "map (\<lambda>t. map t header)
     (tasks (snd (importCSV (exportCSV
        [[js ''id'' \<mapsto> JStr (js ''abc1234''), js ''title'' \<mapsto> JStr (js ''Fix truck 12''),
          js ''description'' \<mapsto> JStr (js ''Replace brake pads''), js ''assignee'' \<mapsto> JStr (js ''Rami''),
          js ''priority'' \<mapsto> JStr (js ''High''), js ''status'' \<mapsto> JStr (js ''In Progress''),
          js ''dueDate'' \<mapsto> JStr (js ''2025-11-20''),
          js ''createdAt'' \<mapsto> JStr (js ''2025-11-11T08:00:00.000Z''),
          js ''updatedAt'' \<mapsto> JStr (js ''2025-11-11T09:00:00.000Z'')]])
        \<lparr>tasks = [], showForm = False, editing = None\<rparr>)))
   = [[Some (JStr (js ''abc1234'')), Some (JStr (js ''Fix truck 12'')), Some (JStr (js ''Replace brake pads'')),
       Some (JStr (js ''Rami'')), Some (JStr (js ''High'')), Some (JStr (js ''In Progress'')),
       Some (JStr (js ''2025-11-20'')), Some (JStr (js ''2025-11-11T08:00:00.000Z'')),
       Some (JStr (js ''2025-11-11T09:00:00.000Z''))]]"
proof -
  let ?t = "[js ''id'' \<mapsto> JStr (js ''abc1234''), js ''title'' \<mapsto> JStr (js ''Fix truck 12''),
          js ''description'' \<mapsto> JStr (js ''Replace brake pads''), js ''assignee'' \<mapsto> JStr (js ''Rami''),
          js ''priority'' \<mapsto> JStr (js ''High''), js ''status'' \<mapsto> JStr (js ''In Progress''),
          js ''dueDate'' \<mapsto> JStr (js ''2025-11-20''),
          js ''createdAt'' \<mapsto> JStr (js ''2025-11-11T08:00:00.000Z''),
          js ''updatedAt'' \<mapsto> JStr (js ''2025-11-11T09:00:00.000Z'')]"
  let ?s = "\<lparr>tasks = [], showForm = False, editing = None\<rparr>"
  let ?r = "tasks (snd (importCSV (exportCSV [?t]) ?s))"
  have h1: "\<forall>t \<in> set [?t]. \<forall>h \<in> set header. \<exists>v. t h = Some (JStr v) \<and> DQ \<notin> set v"
    by (simp add: header_def js_def)
  have h2: "tasks ?s = []" by simp
  from export_import_roundtrip [OF h1 h2] have len: "length ?r = 1"
    and fld: "\<forall>h \<in> set header. (?r ! 0) h = ?t h"
    by simp_all
  from len obtain ob where r: "?r = [ob]"
    by (cases ?r) auto
  from fld have "map ob header = map ?t header"
    unfolding r by simp
  then show ?thesis unfolding r by (simp add: header_def js_eq_iff)
qed

text \<open>
  A title with a quote character: the exported row holds the quote with a backslash
  in front, the splitter drops the quote, and \<^verbatim>\<open>JSON.parse\<close> throws on what is
  left, so that nothing is imported. A task whose id is \<^verbatim>\<open>undefined\<close> comes back
  with the empty string as its id.
\<close>

theorem roundtrip_breaks_on_quote:
  "fst (importCSV
      (exportCSV [[js ''id'' \<mapsto> JStr (js ''abc1234''), js ''title'' \<mapsto> JStr (js ''6'' @ [DQ] @ js '' bolt''),
                   js ''description'' \<mapsto> JStr [], js ''assignee'' \<mapsto> JStr (js ''Rami''),
                   js ''priority'' \<mapsto> JStr (js ''High''), js ''status'' \<mapsto> JStr (js ''Todo''),
                   js ''dueDate'' \<mapsto> JStr [],
                   js ''createdAt'' \<mapsto> JStr (js ''2025-11-11T08:00:00.000Z''),
                   js ''updatedAt'' \<mapsto> JStr (js ''2025-11-11T09:00:00.000Z'')]])
      \<lparr>tasks = [], showForm = False, editing = None\<rparr>) = Thrown \<and>
   length (tasks (snd (importCSV
      (exportCSV [[js ''id'' \<mapsto> JStr (js ''abc1234''), js ''title'' \<mapsto> JStr (js ''6'' @ [DQ] @ js '' bolt''),
                   js ''description'' \<mapsto> JStr [], js ''assignee'' \<mapsto> JStr (js ''Rami''),
                   js ''priority'' \<mapsto> JStr (js ''High''), js ''status'' \<mapsto> JStr (js ''Todo''),
                   js ''dueDate'' \<mapsto> JStr [],
                   js ''createdAt'' \<mapsto> JStr (js ''2025-11-11T08:00:00.000Z''),
                   js ''updatedAt'' \<mapsto> JStr (js ''2025-11-11T09:00:00.000Z'')]])
      \<lparr>tasks = [], showForm = False, editing = None\<rparr>))) = 0 \<and>
   get (tasks (snd (importCSV
      (exportCSV [[js ''id'' \<mapsto> JUndefined, js ''title'' \<mapsto> JStr (js ''Fix truck 12'')]])
      \<lparr>tasks = [], showForm = False, editing = None\<rparr>)) ! 0) (js ''id'') = JStr []"
  by code_simp

section \<open>Import of files without data and of short rows\<close>

text \<open>
  C9. A text with fewer than two non-empty lines, that is with no data row after the
  header line, makes the import show the alert \<^verbatim>\<open>No data found\<close> (the EmptyImportError
  of the specification) and leaves the component state, the task list included, as it
  was.
\<close>

theorem import_no_data:
  "length (filter (\<lambda>l. l \<noteq> []) (split_lines text)) < 2 \<Longrightarrow> importCSV text s = (Alert (js ''No data found''), s)"
  by (auto simp: importCSV_def split: list.splits)

theorem import_no_data_witness:
  "importCSV (js ''id,title,description,assignee,priority,status,dueDate,createdAt,updatedAt'')
     \<lparr>tasks = sampleTasks (js ''k3j9x0a'') (js ''p0q8w2e'') (\<lambda>k. js ''2025-11-11T08:00:00.000Z''), showForm = False, editing = None\<rparr>
   = (Alert (js ''No data found''),
      \<lparr>tasks = sampleTasks (js ''k3j9x0a'') (js ''p0q8w2e'') (\<lambda>k. js ''2025-11-11T08:00:00.000Z''), showForm = False, editing = None\<rparr>)"
proof -
  have "length (filter (\<lambda>l. l \<noteq> []) (split_lines (js ''id,title,description,assignee,priority,status,dueDate,createdAt,updatedAt''))) < 2"
    by (simp add: split_lines_last js_def)
  then show ?thesis by (rule import_no_data)
qed

lemma JSON_parse_empty_literal: "JSON_parse [DQ, DQ] = Some []"
  by (simp add: JSON_parse_def json_ws_def)

lemma JSON_parse_Nil: "JSON_parse [] = None"
  by (simp add: JSON_parse_def)

lemma assign_fields_missing:
  "length parts \<le> i \<Longrightarrow>
   assign_fields hs i parts ob
     = Some (\<lambda>k. if k \<in> set hs \<and> k \<noteq> js ''__proto__'' then Some (JStr []) else ob k)"
proof (induction hs arbitrary: i ob)
  case Nil
  then show ?case by simp
next
  case (Cons h hs)
  have "assign_fields (h # hs) i parts ob = assign_fields hs (Suc i) parts (set_prop ob h (JStr []))"
    using Cons.prems by (simp add: JSON_parse_empty_literal)
  also have "\<dots> = Some (\<lambda>k. if k \<in> set hs \<and> k \<noteq> js ''__proto__'' then Some (JStr []) else set_prop ob h (JStr []) k)"
    using Cons.prems by (intro Cons.IH) simp
  also have "(\<lambda>k. if k \<in> set hs \<and> k \<noteq> js ''__proto__'' then Some (JStr []) else set_prop ob h (JStr []) k)
             = (\<lambda>k. if k \<in> set (h # hs) \<and> k \<noteq> js ''__proto__'' then Some (JStr []) else ob k)"
    by (rule ext) (simp add: set_prop_def)
  finally show ?case .
qed

lemma assign_fields_short:
  assumes "\<forall>j < length hs. i + j < length parts \<longrightarrow> JSON_parse (parts ! (i + j)) \<noteq> None"
  shows "\<exists>ob'. assign_fields hs i parts ob = Some ob' \<and>
           (\<forall>j < length hs. length parts \<le> i + j \<and> hs ! j \<noteq> js ''__proto__'' \<longrightarrow> ob' (hs ! j) = Some (JStr []))"
  using assms
proof (induction hs arbitrary: i ob)
  case Nil
  then show ?case by simp
next
  case (Cons h hs)
  show ?case
  proof (cases "length parts \<le> i")
    case True
    have "(h # hs) ! j \<in> set (h # hs)" if "j < length (h # hs)" for j
      using that by (rule nth_mem)
    with True show ?thesis
      by (simp add: assign_fields_missing del: assign_fields.simps)
  next
    case False
    with Cons.prems have "JSON_parse (parts ! i) \<noteq> None" by force
    then obtain v where v: "JSON_parse (parts ! i) = Some v" "parts ! i \<noteq> []"
      using JSON_parse_Nil by fastforce
    have step: "assign_fields (h # hs) i parts ob = assign_fields hs (Suc i) parts (set_prop ob h (JStr v))"
      using False v by simp
    have "\<forall>j < length hs. Suc i + j < length parts \<longrightarrow> JSON_parse (parts ! (Suc i + j)) \<noteq> None"
      using Cons.prems by force
    from Cons.IH [OF this, of "set_prop ob h (JStr v)"] obtain ob' where ob':
        "assign_fields hs (Suc i) parts (set_prop ob h (JStr v)) = Some ob'"
        "\<forall>j < length hs. length parts \<le> Suc i + j \<and> hs ! j \<noteq> js ''__proto__'' \<longrightarrow> ob' (hs ! j) = Some (JStr [])"
      by blast
    have "length parts \<le> i + j \<and> (h # hs) ! j \<noteq> js ''__proto__'' \<longrightarrow> ob' ((h # hs) ! j) = Some (JStr [])"
      if "j < length (h # hs)" for j
    proof (cases j)
      case 0
      with False show ?thesis by simp
    next
      case (Suc j')
      with that ob'(2) show ?thesis by simp
    qed
    with step ob'(1) show ?thesis by (simp del: assign_fields.simps)
  qed
qed

text \<open>
  A row of two fields under a header of three, the second field with an escape for
  the code unit 0141: both fields are read, and the missing due date is the empty
  string.
\<close>

lemma short_row_unicode_escape:
  "map_option (\<lambda>ob. map ob (map js [''id'', ''title'', ''dueDate'']))
     (row_obj (map js [''id'', ''title'', ''dueDate'']) (js ''x1,a'' @ [BSL] @ js ''u0141b''))
   = Some [Some (JStr (js ''x1'')), Some (JStr [0x61, 0x0141, 0x62]), Some (JStr [])]"
  by code_simp

text \<open>
  C10, as the code has it. When each field that a data row has parses as the content
  of a JSON string, the row gives an object, and every header column beyond the
  fields of the row is assigned the empty string (a column named \<^verbatim>\<open>__proto__\<close> apart,
  for which the assignment makes no property).
\<close>

theorem short_row_defaults:
  assumes "\<forall>j < min (length hdr) (length (splitCSVLine ln)). JSON_parse (splitCSVLine ln ! j) \<noteq> None"
  shows "\<exists>ob. row_obj hdr ln = Some ob \<and>
           (\<forall>j < length hdr. length (splitCSVLine ln) \<le> j \<and> hdr ! j \<noteq> js ''__proto__''
              \<longrightarrow> ob (hdr ! j) = Some (JStr []))"
proof -
  have "\<forall>j < length hdr. 0 + j < length (splitCSVLine ln) \<longrightarrow> JSON_parse (splitCSVLine ln ! (0 + j)) \<noteq> None"
    using assms by simp
  from assign_fields_short [OF this, of Map.empty] show ?thesis
    by (simp add: row_obj_def)
qed

theorem short_row_defaults_witness:
  "map_option (\<lambda>ob. ob (js ''dueDate''))
     (row_obj [js ''id'', js ''title'', js ''dueDate''] (js ''x1,a'' @ [BSL] @ js ''u0141b''))
   = Some (Some (JStr []))"
proof -
  let ?hdr = "[js ''id'', js ''title'', js ''dueDate'']"
  let ?ln = "js ''x1,a'' @ [BSL] @ js ''u0141b''"
  have parts: "splitCSVLine ?ln = [[DQ] @ js ''x1'' @ [DQ], [DQ] @ js ''a'' @ [BSL] @ js ''u0141b'' @ [DQ]]"
    by code_simp
  have p0: "JSON_parse ([DQ] @ js ''x1'' @ [DQ]) = Some (js ''x1'')"
    by code_simp
  have p1: "JSON_parse ([DQ] @ js ''a'' @ [BSL] @ js ''u0141b'' @ [DQ]) = Some [0x61, 0x0141, 0x62]"
    by code_simp
  have h: "\<forall>j < min (length ?hdr) (length (splitCSVLine ?ln)). JSON_parse (splitCSVLine ?ln ! j) \<noteq> None"
    unfolding parts using p0 p1 by (simp add: less_Suc_eq)
  from short_row_defaults [OF h] obtain ob where ob: "row_obj ?hdr ?ln = Some ob"
    "\<forall>j < length ?hdr. length (splitCSVLine ?ln) \<le> j \<and> ?hdr ! j \<noteq> js ''__proto__'' \<longrightarrow> ob (?hdr ! j) = Some (JStr [])"
    by blast
  have "(2::nat) < length ?hdr" by simp
  with ob(2) have "length (splitCSVLine ?ln) \<le> 2 \<and> ?hdr ! 2 \<noteq> js ''__proto__'' \<longrightarrow> ob (?hdr ! 2) = Some (JStr [])"
    by blast
  then have "ob (js ''dueDate'') = Some (JStr [])" unfolding parts by (simp add: js_eq_iff)
  with ob(1) show ?thesis by simp
qed

text \<open>
  A row with fewer fields than the header whose one field ends in a backslash: the
  part handed to \<^verbatim>\<open>JSON.parse\<close> is no string literal, and the import is left by the
  exception. And a missing column named \<^verbatim>\<open>__proto__\<close> gets no property.
\<close>

theorem short_row_fails_on_bad_escape:
  "row_obj [js ''id'', js ''title''] (js ''a'' @ [BSL]) = None \<and>
   map_option (\<lambda>ob. ob (js ''__proto__'')) (row_obj [js ''id'', js ''__proto__''] (js ''abc1234'')) = Some None"
  by (simp add: row_obj_def splitCSVLine_def JSON_parse_def json_ws_def unescape_def set_prop_def push_unit_def js_def)

end
